theory Spec2Isabelle
  imports Main
begin

section \<open>The bounded asynchronous event queue\<close>

text \<open>
  The class \<^verbatim>\<open>AsyncEventQueue<T>\<close> bridges event callbacks to an async iterator.
  Its fields are embedded as a record. A JavaScript \<^verbatim>\<open>Error\<close> object is represented
  by its message. A promise handed out by \<^verbatim>\<open>next\<close> is either already settled
  (\<^verbatim>\<open>Promise.resolve\<close>, \<^verbatim>\<open>Promise.reject\<close>) or pending; the pair of closures
  \<^verbatim>\<open>resolve\<close>/\<^verbatim>\<open>reject\<close> of a pending promise is represented by the number of that
  promise, and every call of such a closure is appended to the log \<open>settled\<close>.
  The field \<open>promises\<close> counts the pending promises created so far and \<open>warnings\<close>
  counts the calls of \<^verbatim>\<open>console.warn\<close>; both are bookkeeping of the embedding.
  \<^verbatim>\<open>maxSize\<close> is a JavaScript number; whole values are modelled. The module builds
  its queues with the default, 1000.
\<close>

datatype js_error = Error string

datatype 'a iterator_result = IterValue 'a | IterDone

datatype 'a settlement = Resolve "'a iterator_result" | Reject js_error

datatype 'a promise = Settled "'a settlement" | Pending nat

record 'a AsyncEventQueue =
  queue :: "'a list"
  resolvers :: "nat list"
  rejecters :: "nat list"
  done_flag :: bool
  error :: "js_error option"
  maxSize :: int
  settled :: "(nat \<times> 'a settlement) list"
  promises :: nat
  warnings :: nat

definition default_maxSize :: int where
  "default_maxSize = 1000"

definition new_AsyncEventQueue :: "int \<Rightarrow> 'a AsyncEventQueue" where
  "new_AsyncEventQueue m =
     \<lparr>queue = [], resolvers = [], rejecters = [], done_flag = False, error = None,
      maxSize = m, settled = [], promises = 0, warnings = 0\<rparr>"

text \<open>
  \<^verbatim>\<open>push(value)\<close>. \<^verbatim>\<open>Array.prototype.shift\<close> on an empty array leaves it empty,
  which is what \<open>tl\<close> does on \<open>[]\<close>.
\<close>

definition push :: "'a AsyncEventQueue \<Rightarrow> 'a \<Rightarrow> 'a AsyncEventQueue" where
  "push q v =
     (if done_flag q then q
      else (case resolvers q of
              r # rs \<Rightarrow>
                q\<lparr>resolvers := rs, rejecters := tl (rejecters q),
                  settled := settled q @ [(r, Resolve (IterValue v))]\<rparr>
            | [] \<Rightarrow>
                (let q1 = (if int (length (queue q)) \<ge> maxSize q
                           then q\<lparr>queue := tl (queue q), warnings := Suc (warnings q)\<rparr>
                           else q)
                 in q1\<lparr>queue := queue q1 @ [v]\<rparr>)))"

text \<open>The loop of \<^verbatim>\<open>complete()\<close>: while a resolver is left, shift both arrays and
  resolve with \<^verbatim>\<open>{ value: undefined, done: true }\<close>.\<close>

function complete_loop :: "'a AsyncEventQueue \<Rightarrow> 'a AsyncEventQueue" where
  "complete_loop q =
     (case resolvers q of
        [] \<Rightarrow> q
      | r # rs \<Rightarrow>
          complete_loop (q\<lparr>resolvers := rs, rejecters := tl (rejecters q),
                           settled := settled q @ [(r, Resolve IterDone)]\<rparr>))"
  by pat_completeness auto
termination
  by (relation "measure (\<lambda>q. length (resolvers q))") auto

definition complete :: "'a AsyncEventQueue \<Rightarrow> 'a AsyncEventQueue" where
  "complete q = complete_loop (q\<lparr>done_flag := True\<rparr>)"

text \<open>The loop of \<^verbatim>\<open>fail(error)\<close>: while a rejecter is left, shift both arrays and
  reject with the error.\<close>

function fail_loop :: "js_error \<Rightarrow> 'a AsyncEventQueue \<Rightarrow> 'a AsyncEventQueue" where
  "fail_loop e q =
     (case rejecters q of
        [] \<Rightarrow> q
      | r # rs \<Rightarrow>
          fail_loop e (q\<lparr>rejecters := rs, resolvers := tl (resolvers q),
                          settled := settled q @ [(r, Reject e)]\<rparr>))"
  by pat_completeness auto
termination
  by (relation "measure (\<lambda>(e, q). length (rejecters q))") auto

definition fail :: "'a AsyncEventQueue \<Rightarrow> js_error \<Rightarrow> 'a AsyncEventQueue" where
  "fail q e = fail_loop e (q\<lparr>error := Some e, done_flag := True\<rparr>)"

text \<open>\<^verbatim>\<open>next()\<close> of the async iterator: the promise it returns and the queue afterwards.\<close>

definition iter_next :: "'a AsyncEventQueue \<Rightarrow> 'a promise \<times> 'a AsyncEventQueue" where
  "iter_next q =
     (case queue q of
        v # vs \<Rightarrow> (Settled (Resolve (IterValue v)), q\<lparr>queue := vs\<rparr>)
      | [] \<Rightarrow>
          (case error q of
             Some e \<Rightarrow> (Settled (Reject e), q)
           | None \<Rightarrow>
               (if done_flag q then (Settled (Resolve IterDone), q)
                else (Pending (promises q),
                      q\<lparr>resolvers := resolvers q @ [promises q],
                        rejecters := rejecters q @ [promises q],
                        promises := Suc (promises q)\<rparr>))))"

subsection \<open>Producers and consumers\<close>

text \<open>A producer that calls \<^verbatim>\<open>push\<close> for each value of a list, in order.\<close>

fun pushes :: "'a AsyncEventQueue \<Rightarrow> 'a list \<Rightarrow> 'a AsyncEventQueue" where
  "pushes q [] = q"
| "pushes q (v # vs) = pushes (push q v) vs"

text \<open>A consumer that calls \<^verbatim>\<open>next\<close> a given number of times, one call after the
  other, and collects the promises it got.\<close>

fun pulls :: "nat \<Rightarrow> 'a AsyncEventQueue \<Rightarrow> 'a promise list" where
  "pulls 0 q = []"
| "pulls (Suc n) q = fst (iter_next q) # pulls n (snd (iter_next q))"

text \<open>
  A consumer in the manner of \<^verbatim>\<open>for await (const x of queue)\<close>: it calls \<^verbatim>\<open>next\<close>
  until the result reports \<^verbatim>\<open>done\<close>; it also stops when the promise rejects (the
  loop throws) and when the promise is pending (the consumer is suspended).
  What it observes is the list of promises, the last one being the one it stopped at.
\<close>

function pull_until_done :: "'a AsyncEventQueue \<Rightarrow> 'a promise list" where
  "pull_until_done q =
     (case iter_next q of
        (Settled (Resolve (IterValue v)), q') \<Rightarrow> Settled (Resolve (IterValue v)) # pull_until_done q'
      | (p, q') \<Rightarrow> [p])"
  by pat_completeness auto
termination
  by (relation "measure (\<lambda>q. length (queue q))")
     (auto simp: iter_next_def split: list.splits option.splits if_splits)


text \<open>
  The class is private to its module: a queue is only ever touched through the
  constructor, \<^verbatim>\<open>push\<close>, \<^verbatim>\<open>complete\<close>, \<^verbatim>\<open>fail\<close> and \<^verbatim>\<open>next\<close>. A history of such
  calls is a list of operations, run from left to right.
\<close>

datatype 'a queue_op = Push 'a | Complete | Fail js_error | Next

fun apply_op :: "'a AsyncEventQueue \<Rightarrow> 'a queue_op \<Rightarrow> 'a AsyncEventQueue" where
  "apply_op q (Push v) = push q v"
| "apply_op q Complete = complete q"
| "apply_op q (Fail e) = fail q e"
| "apply_op q Next = snd (iter_next q)"

fun run_ops :: "'a AsyncEventQueue \<Rightarrow> 'a queue_op list \<Rightarrow> 'a AsyncEventQueue" where
  "run_ops q [] = q"
| "run_ops q (x # xs) = run_ops (apply_op q x) xs"

text \<open>Pending consumers are kept in two arrays of equal content, and a terminal queue
  has none.\<close>

definition paired :: "'a AsyncEventQueue \<Rightarrow> bool" where
  "paired q = (resolvers q = rejecters q \<and> (if done_flag q then resolvers q = [] else True))"

section \<open>The Copilot session: streaming\<close>

text \<open>
  A value thrown in JavaScript is an \<^verbatim>\<open>Error\<close> instance or something else; the
  latter is represented by its \<^verbatim>\<open>String(err)\<close>. The \<^verbatim>\<open>catch\<close> block of
  \<^verbatim>\<open>copilot_sdk_streaming\<close> turns either into an \<^verbatim>\<open>Error\<close>.
\<close>

datatype thrown = ThrownError js_error | ThrownOther string

fun to_error :: "thrown \<Rightarrow> js_error" where
  "to_error (ThrownError e) = e"
| "to_error (ThrownOther s) = Error s"

record chat_message =
  role :: string
  content :: string

text \<open>\<^verbatim>\<open>ConversationSchema.parse\<close>: every role is one of the three of the enum (the
  content is a string by the type of the record).\<close>

definition ConversationSchema_parse :: "chat_message list \<Rightarrow> thrown + chat_message list" where
  "ConversationSchema_parse conversation =
     (if list_all (\<lambda>m. role m = ''system'' \<or> role m = ''user'' \<or> role m = ''assistant'') conversation
      then Inr conversation
      else Inl (ThrownError (Error ''ZodError'')))"

text \<open>\<^verbatim>\<open>validatedConversation.filter(m => m.role === 'user').pop()\<close>\<close>

definition lastUserMessage :: "chat_message list \<Rightarrow> chat_message option" where
  "lastUserMessage vc =
     (case rev (filter (\<lambda>m. role m = ''user'') vc) of [] \<Rightarrow> None | m # ms \<Rightarrow> Some m)"

text \<open>
  The session is an object of the Copilot SDK. What the adapter does to it is recorded:
  whether the handler given to \<^verbatim>\<open>session.on\<close> is still registered, the prompts sent,
  and how often \<^verbatim>\<open>abort\<close> and \<^verbatim>\<open>destroy\<close> were called. \<open>destroyThrows\<close> is the
  behaviour of the SDK: the value \<^verbatim>\<open>session.destroy()\<close> rejects with, if it does.
  \<^verbatim>\<open>unsubscribe()\<close> and \<^verbatim>\<open>session.abort()\<close> are taken not to throw.
\<close>

record session =
  subscribed :: bool
  sent :: "string list"
  abortCalls :: nat
  destroyCalls :: nat
  destroyThrows :: "thrown option"

definition session_destroy :: "session \<Rightarrow> (thrown + unit) \<times> session" where
  "session_destroy ss =
     ((case destroyThrows ss of Some t \<Rightarrow> Inl t | None \<Rightarrow> Inr ()),
      ss\<lparr>destroyCalls := Suc (destroyCalls ss)\<rparr>)"

text \<open>
  The variables that the closures of \<^verbatim>\<open>copilot_sdk_streaming\<close> share, with the
  notices shown and the console lines written. \<open>cleanupCalls\<close> counts the
  invocations of \<^verbatim>\<open>performCleanup\<close>; it is bookkeeping of the embedding.
\<close>

record stream =
  textQueue :: "string AsyncEventQueue"
  reasoningQueue :: "string AsyncEventQueue"
  session :: session
  cleanedUp :: bool
  cleanupCalls :: nat
  notices :: "string list"
  console :: "string list"

text \<open>\<^verbatim>\<open>performCleanup\<close>: the value the returned promise settles with, and the state.\<close>

definition performCleanup :: "stream \<Rightarrow> (thrown + unit) \<times> stream" where
  "performCleanup s0 =
     (let s = s0\<lparr>cleanupCalls := Suc (cleanupCalls s0)\<rparr> in
      if cleanedUp s then (Inr (), s)
      else
        (let s1 = s\<lparr>cleanedUp := True\<rparr>;
             s2 = s1\<lparr>session := (session s1)\<lparr>subscribed := False\<rparr>\<rparr>;
             d = session_destroy (session s2);
             s3 = s2\<lparr>session := snd d\<rparr>
         in (case fst d of
               Inr u \<Rightarrow> (Inr (), s3)
             | Inl e \<Rightarrow>
                 (Inr (), s3\<lparr>console := console s3 @ [''Error destroying Copilot session:'']\<rparr>))))"

text \<open>
  An event as the handler sees it. \<open>InvalidEvent\<close> is an event that is falsy or whose
  \<^verbatim>\<open>type\<close> is not a string. Of \<^verbatim>\<open>event.data\<close> two properties are read:
  \<open>deltaContent\<close> is \<open>Some c\<close> when \<^verbatim>\<open>typeof event.data.deltaContent === 'string'\<close>.
  Of \<^verbatim>\<open>event.data.message\<close>, which may be any value, the handler uses whether it is
  truthy and what the template literal makes of it: \<open>message\<close> is \<open>Some m\<close> when
  the value is truthy and \<open>m\<close> is its conversion to a string (a non-empty string
  itself, \<^verbatim>\<open>"42"\<close> for the number 42, the empty string for an empty array), and
  \<open>None\<close> when the value is falsy (absent, \<^verbatim>\<open>undefined\<close>, \<^verbatim>\<open>null\<close>, \<^verbatim>\<open>""\<close>,
  \<^verbatim>\<open>0\<close>, \<^verbatim>\<open>NaN\<close>, \<^verbatim>\<open>false\<close>).
\<close>

record event_data =
  deltaContent :: "string option"
  message :: "string option"

datatype event = InvalidEvent | Event string "event_data option"

text \<open>\<^verbatim>\<open>event.data?.message || 'Unknown error'\<close>, as the template literals render it.\<close>

definition errorMessage_of :: "event_data option \<Rightarrow> string" where
  "errorMessage_of d =
     (case d of
        None \<Rightarrow> ''Unknown error''
      | Some dd \<Rightarrow>
          (case message dd of
             None \<Rightarrow> ''Unknown error''
           | Some m \<Rightarrow> m))"

definition delta_of :: "event_data option \<Rightarrow> string option" where
  "delta_of d = (case d of None \<Rightarrow> None | Some dd \<Rightarrow> deltaContent dd)"

text \<open>The handler passed to \<^verbatim>\<open>session.on\<close>.\<close>

definition handler :: "event \<Rightarrow> stream \<Rightarrow> stream" where
  "handler ev s =
     (case ev of
        InvalidEvent \<Rightarrow>
          s\<lparr>console := console s @ [''Received invalid event from Copilot session:'']\<rparr>
      | Event ty d \<Rightarrow>
          if ty = ''assistant.message_delta'' then
            (case delta_of d of
               Some c \<Rightarrow> s\<lparr>textQueue := push (textQueue s) c\<rparr>
             | None \<Rightarrow> s)
          else if ty = ''assistant.reasoning_delta'' then
            (case delta_of d of
               Some c \<Rightarrow> s\<lparr>reasoningQueue := push (reasoningQueue s) c\<rparr>
             | None \<Rightarrow> s)
          else if ty = ''session.error'' then
            (let errorMessage = errorMessage_of d;
                 err = Error (''Copilot streaming error: '' @ errorMessage);
                 s1 = s\<lparr>textQueue := fail (textQueue s) err\<rparr>;
                 s2 = s1\<lparr>reasoningQueue := fail (reasoningQueue s1) err\<rparr>;
                 s3 = s2\<lparr>console := console s2 @ [''Copilot session error:''],
                        notices := notices s2 @ [''Copilot error: '' @ errorMessage]\<rparr>;
                 c = performCleanup s3
             in (case fst c of
                   Inr u \<Rightarrow> snd c
                 | Inl e \<Rightarrow>
                     (snd c)\<lparr>console := console (snd c) @
                                 [''Error during cleanup after session error:'']\<rparr>))
          else if ty = ''session.idle'' then
            (let s1 = s\<lparr>textQueue := complete (textQueue s)\<rparr>
             in s1\<lparr>reasoningQueue := complete (reasoningQueue s1)\<rparr>)
          else s)"

text \<open>The session calls the handler for an event it emits as long as the handler is
  registered, that is until \<^verbatim>\<open>unsubscribe()\<close> was called.\<close>

definition emit :: "event \<Rightarrow> stream \<Rightarrow> stream" where
  "emit ev s = (if subscribed (session s) then handler ev s else s)"

fun emits :: "event list \<Rightarrow> stream \<Rightarrow> stream" where
  "emits [] s = s"
| "emits (ev # evs) s = emits evs (emit ev s)"

text \<open>The \<^verbatim>\<open>abort\<close> control of the returned object.\<close>

definition abort :: "stream \<Rightarrow> stream" where
  "abort s =
     (let s1 = s\<lparr>session := (session s)\<lparr>abortCalls := Suc (abortCalls (session s))\<rparr>\<rparr>;
          s2 = s1\<lparr>textQueue := complete (textQueue s1)\<rparr>
      in s2\<lparr>reasoningQueue := complete (reasoningQueue s2)\<rparr>)"

text \<open>
  The state when \<^verbatim>\<open>session.on\<close> has returned: two new queues of the default capacity,
  the handler registered, nothing cleaned up. Events are taken to reach the handler
  only after \<^verbatim>\<open>session.on\<close> has returned.
\<close>

definition new_stream :: "thrown option \<Rightarrow> stream" where
  "new_stream destroy_behaviour =
     \<lparr>textQueue = new_AsyncEventQueue default_maxSize,
      reasoningQueue = new_AsyncEventQueue default_maxSize,
      session = \<lparr>subscribed = True, sent = [], abortCalls = 0, destroyCalls = 0,
                 destroyThrows = destroy_behaviour\<rparr>,
      cleanedUp = False, cleanupCalls = 0,
      notices = [''Calling GitHub Copilot''], console = []\<rparr>"

text \<open>
  How a call of \<^verbatim>\<open>copilot_sdk_streaming\<close> ends: the promise rejects (with the state of
  the stream at that moment, if a session had been created), or it resolves with the
  stream object.
\<close>

datatype streaming_outcome = Rejected thrown "stream option" | Returned stream

text \<open>
  \<^verbatim>\<open>copilot_sdk_streaming\<close>. The client, the model id and the system message only
  go into \<^verbatim>\<open>client.createSession\<close> and are left out. Besides the conversation, the
  parameters are what the SDK does: \<open>create_fails\<close> is the value
  \<^verbatim>\<open>client.createSession\<close> rejects with, if any; \<open>destroy_behaviour\<close> is the value
  \<^verbatim>\<open>session.destroy\<close> rejects with, if any; \<open>during_send\<close> are the events the
  session emits while \<^verbatim>\<open>session.send\<close> is awaited; \<open>send_fails\<close> is the value
  \<^verbatim>\<open>session.send\<close> rejects with, if any.
\<close>

definition copilot_sdk_streaming ::
  "chat_message list \<Rightarrow> thrown option \<Rightarrow> thrown option \<Rightarrow> event list \<Rightarrow> thrown option
     \<Rightarrow> streaming_outcome" where
  "copilot_sdk_streaming conversation create_fails destroy_behaviour during_send send_fails =
     (case ConversationSchema_parse conversation of
        Inl t \<Rightarrow> Rejected t None
      | Inr validatedConversation \<Rightarrow>
          (case lastUserMessage validatedConversation of
             None \<Rightarrow> Rejected (ThrownError (Error ''No user message found in conversation'')) None
           | Some m \<Rightarrow>
               (case create_fails of
                  Some t \<Rightarrow> Rejected t None
                | None \<Rightarrow>
                    (let s0 = new_stream destroy_behaviour;
                         s1 = s0\<lparr>session := (session s0)\<lparr>sent := sent (session s0) @ [content m]\<rparr>\<rparr>;
                         s2 = emits during_send s1
                     in (case send_fails of
                           None \<Rightarrow> Returned s2
                         | Some t \<Rightarrow>
                             (let err = to_error t;
                                  s3 = s2\<lparr>textQueue := fail (textQueue s2) err\<rparr>;
                                  s4 = s3\<lparr>reasoningQueue := fail (reasoningQueue s3) err\<rparr>;
                                  c = performCleanup s4
                              in (case fst c of
                                    Inl t' \<Rightarrow> Rejected t' (Some (snd c))
                                  | Inr u \<Rightarrow> Rejected (ThrownError err) (Some (snd c)))))))))"

text \<open>
  What can happen to a stream after it was returned: the session emits an event, the
  caller invokes \<^verbatim>\<open>abort\<close> or \<^verbatim>\<open>cleanup\<close>, or a consumer calls \<^verbatim>\<open>next\<close> on one of
  the two queues.
\<close>

datatype action = Emit event | Abort | Cleanup | NextText | NextReasoning

fun act :: "stream \<Rightarrow> action \<Rightarrow> stream" where
  "act s (Emit ev) = emit ev s"
| "act s Abort = abort s"
| "act s Cleanup = snd (performCleanup s)"
| "act s NextText = s\<lparr>textQueue := snd (iter_next (textQueue s))\<rparr>"
| "act s NextReasoning = s\<lparr>reasoningQueue := snd (iter_next (reasoningQueue s))\<rparr>"

fun acts :: "stream \<Rightarrow> action list \<Rightarrow> stream" where
  "acts s [] = s"
| "acts s (a # as) = acts (act s a) as"

text \<open>The state of the stream that a call ends with, if a session was created.\<close>

fun stream_of :: "streaming_outcome \<Rightarrow> stream option" where
  "stream_of (Rejected t so) = so"
| "stream_of (Returned s) = Some s"

fun rejection_of :: "streaming_outcome \<Rightarrow> thrown option" where
  "rejection_of (Rejected t so) = Some t"
| "rejection_of (Returned s) = None"

section \<open>The Copilot session: completion\<close>

text \<open>
  The payload \<^verbatim>\<open>session.sendAndWait\<close> resolves with: nullish (\<open>None\<close>), or an object
  whose \<^verbatim>\<open>data\<close> is nullish or an object whose \<^verbatim>\<open>content\<close> is absent or a string.
\<close>

datatype payload = Payload "string option"

datatype response = Response "payload option"

text \<open>\<^verbatim>\<open>response?.data?.content || ""\<close>\<close>

fun content_or_empty :: "response option \<Rightarrow> string" where
  "content_or_empty None = []"
| "content_or_empty (Some (Response None)) = []"
| "content_or_empty (Some (Response (Some (Payload None)))) = []"
| "content_or_empty (Some (Response (Some (Payload (Some c))))) = (if c = [] then [] else c)"

record completion_outcome =
  outcome :: "thrown + string"
  final_session :: "session option"
  warned :: "string list"

text \<open>
  \<^verbatim>\<open>copilot_sdk_completion\<close>, with the parameters of \<^verbatim>\<open>copilot_sdk_streaming\<close>
  except that \<open>send_result\<close> is what \<^verbatim>\<open>session.sendAndWait\<close> settles with. The \<^verbatim>\<open>finally\<close> block runs after the \<^verbatim>\<open>try\<close> block on both ways out and
  completes normally, so the result of the \<^verbatim>\<open>try\<close> block stands.
\<close>

definition copilot_sdk_completion ::
  "chat_message list \<Rightarrow> thrown option \<Rightarrow> thrown option \<Rightarrow> thrown + response option
     \<Rightarrow> completion_outcome" where
  "copilot_sdk_completion conversation create_fails destroy_behaviour send_result =
     (case ConversationSchema_parse conversation of
        Inl t \<Rightarrow> \<lparr>outcome = Inl t, final_session = None, warned = []\<rparr>
      | Inr validatedConversation \<Rightarrow>
          (case lastUserMessage validatedConversation of
             None \<Rightarrow>
               \<lparr>outcome = Inl (ThrownError (Error ''No user message found in conversation'')),
                final_session = None, warned = []\<rparr>
           | Some m \<Rightarrow>
               (case create_fails of
                  Some t \<Rightarrow> \<lparr>outcome = Inl t, final_session = None, warned = []\<rparr>
                | None \<Rightarrow>
                    (let ss0 = \<lparr>subscribed = False, sent = [content m], abortCalls = 0,
                                destroyCalls = 0, destroyThrows = destroy_behaviour\<rparr>;
                         tried = (case send_result of
                                    Inl t \<Rightarrow> Inl t
                                  | Inr response \<Rightarrow> Inr (content_or_empty response));
                         d = session_destroy ss0
                     in (case fst d of
                           Inr u \<Rightarrow> \<lparr>outcome = tried, final_session = Some (snd d), warned = []\<rparr>
                         | Inl e \<Rightarrow>
                             \<lparr>outcome = tried, final_session = Some (snd d),
                              warned = [''Error destroying Copilot session:'']\<rparr>)))))"

section \<open>Structured generation\<close>

text \<open>JavaScript values, as far as the result of \<^verbatim>\<open>generateObject\<close> needs them.\<close>

datatype jsval =
  JUndefined | JNull | JBool bool | JNum int | JStr string
| JArray "jsval list" | JObject "(string \<times> jsval) list"

text \<open>
  Property access \<^verbatim>\<open>v.k\<close> for a key \<open>k\<close> that no primitive value or array has:
  a \<^verbatim>\<open>TypeError\<close> on \<^verbatim>\<open>undefined\<close> and \<^verbatim>\<open>null\<close>, the property or
  \<^verbatim>\<open>undefined\<close> on an object, \<^verbatim>\<open>undefined\<close> otherwise.
\<close>

fun get_prop :: "jsval \<Rightarrow> string \<Rightarrow> thrown + jsval" where
  "get_prop JUndefined k = Inl (ThrownError (Error ''TypeError''))"
| "get_prop JNull k = Inl (ThrownError (Error ''TypeError''))"
| "get_prop (JObject kvs) k = Inr (case map_of kvs k of Some v \<Rightarrow> v | None \<Rightarrow> JUndefined)"
| "get_prop v k = Inr JUndefined"

datatype eligible_provider =
  Google | Openai | Anthropic | Groq | Ollama | Openrouter | Custom | Perplexity | Github_copilot

text \<open>
  The argument of \<^verbatim>\<open>generateObject\<close>. \<open>model_via_chat\<close> tells whether the model handle
  was made by \<^verbatim>\<open>provider.chat(model)\<close> or by \<^verbatim>\<open>provider(model)\<close>, and \<open>json_mode\<close>
  whether \<^verbatim>\<open>mode: "json"\<close> was given. A schema is the set of values it accepts.
  The temperature is only passed on; it is represented by an integer.
\<close>

record generate_request =
  model_via_chat :: bool
  model_id :: string
  schema :: "jsval \<Rightarrow> bool"
  messages :: "chat_message list"
  temperature :: int
  json_mode :: bool

text \<open>
  \<^verbatim>\<open>ai_sdk_structured\<close>. \<open>generateObject\<close> is the function of the \<^verbatim>\<open>ai\<close> package,
  taken as a parameter: it rejects or resolves with a result object whose property
  \<^verbatim>\<open>object\<close> is the generated value. The provider is present through
  \<open>generateObject\<close> and \<open>model_via_chat\<close>; the notice shown first is left out.
\<close>

definition ai_sdk_structured ::
  "(generate_request \<Rightarrow> thrown + jsval) \<Rightarrow> string \<Rightarrow> chat_message list \<Rightarrow> int
     \<Rightarrow> eligible_provider \<Rightarrow> (jsval \<Rightarrow> bool) \<Rightarrow> thrown + jsval" where
  "ai_sdk_structured generateObject model conversation temp provider_name sch =
     (case ConversationSchema_parse conversation of
        Inl t \<Rightarrow> Inl t
      | Inr validatedConversation \<Rightarrow>
          if provider_name = Openrouter then
            (case generateObject \<lparr>model_via_chat = True, model_id = model, schema = sch,
                                   messages = validatedConversation, temperature = temp,
                                   json_mode = True\<rparr> of
               Inl t \<Rightarrow> Inl t
             | Inr response \<Rightarrow> Inr response)
          else
            (case generateObject \<lparr>model_via_chat = False, model_id = model, schema = sch,
                                   messages = validatedConversation, temperature = temp,
                                   json_mode = False\<rparr> of
               Inl t \<Rightarrow> Inl t
             | Inr response \<Rightarrow> get_prop response ''object''))"

section \<open>Auxiliary predicates\<close>


fun is_session_error :: "event \<Rightarrow> bool" where
  "is_session_error InvalidEvent = False"
| "is_session_error (Event ty d) = (ty = ''session.error'')"

text \<open>The session was destroyed once if \<^verbatim>\<open>cleanedUp\<close> is set and never otherwise, and
  \<^verbatim>\<open>cleanedUp\<close> is set exactly when \<^verbatim>\<open>performCleanup\<close> has been invoked.\<close>

definition one_shot :: "stream \<Rightarrow> bool" where
  "one_shot s =
     (destroyCalls (session s) = (if cleanedUp s then 1 else 0) \<and>
      cleanedUp s = (cleanupCalls s \<noteq> 0) \<and>
      subscribed (session s) = (\<not> cleanedUp s))"

text \<open>Actions of the consumer, and actions that are not the delivery of a
  \<^verbatim>\<open>session.error\<close> event.\<close>

fun is_pull :: "action \<Rightarrow> bool" where
  "is_pull NextText = True"
| "is_pull NextReasoning = True"
| "is_pull a = False"

fun no_error_event :: "action \<Rightarrow> bool" where
  "no_error_event (Emit ev) = (\<not> is_session_error ev)"
| "no_error_event a = True"

text \<open>A queue that is terminal and has no consumer waiting.\<close>

definition closed_queue :: "'a AsyncEventQueue \<Rightarrow> bool" where
  "closed_queue q = (done_flag q \<and> resolvers q = [])"

section \<open>Properties of the queue\<close>

declare complete_loop.simps [simp del]
declare fail_loop.simps [simp del]
declare pull_until_done.simps [simp del]

subsection \<open>The two loops in closed form\<close>

lemma complete_loop_eq:
  "complete_loop q =
     q\<lparr>resolvers := [], rejecters := drop (length (resolvers q)) (rejecters q),
       settled := settled q @ map (\<lambda>r. (r, Resolve IterDone)) (resolvers q)\<rparr>"
proof (induction q rule: complete_loop.induct)
  case (1 q)
  show ?case
  proof (cases "resolvers q")
    case Nil
    then show ?thesis by (simp add: complete_loop.simps[of q])
  next
    case (Cons r rs)
    then show ?thesis
      using "1.IH"[OF Cons]
      by (simp add: complete_loop.simps[of q] drop_Suc)
  qed
qed

lemma fail_loop_eq:
  "fail_loop e q =
     q\<lparr>rejecters := [], resolvers := drop (length (rejecters q)) (resolvers q),
       settled := settled q @ map (\<lambda>r. (r, Reject e)) (rejecters q)\<rparr>"
proof (induction e q rule: fail_loop.induct)
  case (1 e q)
  show ?case
  proof (cases "rejecters q")
    case Nil
    then show ?thesis by (simp add: fail_loop.simps[of e q])
  next
    case (Cons r rs)
    then show ?thesis
      using "1.IH"[OF Cons]
      by (simp add: fail_loop.simps[of e q] drop_Suc)
  qed
qed

subsection \<open>Buffering without overflow, and draining\<close>

lemma pushes_no_overflow:
  "\<not> done_flag q \<Longrightarrow> resolvers q = [] \<Longrightarrow>
   int (length (queue q) + length vs) \<le> maxSize q \<Longrightarrow>
   pushes q vs = q\<lparr>queue := queue q @ vs\<rparr>"
proof (induction vs arbitrary: q)
  case Nil
  then show ?case by simp
next
  case (Cons v vs)
  have step: "push q v = q\<lparr>queue := queue q @ [v]\<rparr>"
    using Cons.prems by (simp add: push_def Let_def)
  show ?case
    using Cons.prems Cons.IH[of "push q v"] by (simp add: step)
qed

lemma pull_until_done_terminal:
  "done_flag q \<Longrightarrow> error q = None \<Longrightarrow>
   pull_until_done q =
     map (\<lambda>v. Settled (Resolve (IterValue v))) (queue q) @ [Settled (Resolve IterDone)]"
proof (induction "queue q" arbitrary: q)
  case Nil
  then show ?case by (simp add: pull_until_done.simps[of q] iter_next_def)
next
  case (Cons v vs)
  have n: "iter_next q = (Settled (Resolve (IterValue v)), q\<lparr>queue := vs\<rparr>)"
    using Cons.hyps(2)[symmetric] by (simp add: iter_next_def)
  have "pull_until_done (q\<lparr>queue := vs\<rparr>) =
     map (\<lambda>v. Settled (Resolve (IterValue v))) vs @ [Settled (Resolve IterDone)]"
    using Cons.hyps(1)[of "q\<lparr>queue := vs\<rparr>"] Cons.prems by simp
  then show ?case
    using Cons.hyps(2)[symmetric] by (simp add: pull_until_done.simps[of q] n)
qed

lemma pulls_Suc_buffered:
  "pulls (Suc (length (queue q))) q =
     map (\<lambda>v. Settled (Resolve (IterValue v))) (queue q) @ [fst (iter_next (q\<lparr>queue := []\<rparr>))]"
proof (induction "queue q" arbitrary: q)
  case Nil
  then have e: "q\<lparr>queue := []\<rparr> = q" by (cases q) simp
  show ?case using Nil.hyps[symmetric] by (simp add: e)
next
  case (Cons v vs)
  have n: "iter_next q = (Settled (Resolve (IterValue v)), q\<lparr>queue := vs\<rparr>)"
    using Cons.hyps(2)[symmetric] by (simp add: iter_next_def)
  show ?case
    using Cons.hyps(1)[of "q\<lparr>queue := vs\<rparr>"] Cons.hyps(2)[symmetric] by (simp add: n)
qed

text \<open>
  Claim C1. On a new queue of capacity \<open>C\<close>, push the values \<open>vs\<close> with no consumer
  pending and no overflow (\<open>length vs \<le> C\<close>), then call \<^verbatim>\<open>complete()\<close> once. A consumer
  that calls \<^verbatim>\<open>next\<close> until it reports done observes exactly the values of \<open>vs\<close>, in
  push order, and then one end-of-sequence result: nothing more, nothing less, and the
  end-of-sequence result only after every pushed value.
\<close>

theorem push_complete_then_drain:
  assumes "int (length vs) \<le> C"
  shows "pull_until_done (complete (pushes (new_AsyncEventQueue C) vs)) =
           map (\<lambda>v. Settled (Resolve (IterValue v))) vs @ [Settled (Resolve IterDone)]"
proof -
  have "pushes (new_AsyncEventQueue C) vs = (new_AsyncEventQueue C)\<lparr>queue := vs\<rparr>"
    using assms pushes_no_overflow[of "new_AsyncEventQueue C" vs]
    by (simp add: new_AsyncEventQueue_def)
  then show ?thesis
    by (simp add: complete_def complete_loop_eq pull_until_done_terminal
        new_AsyncEventQueue_def)
qed

theorem push_complete_then_drain_witness:
  "int (length [''He'', ''llo'', ''!'']) \<le> default_maxSize \<and>
   pull_until_done (complete (pushes (new_AsyncEventQueue default_maxSize) [''He'', ''llo'', ''!''])) =
     [Settled (Resolve (IterValue ''He'')), Settled (Resolve (IterValue ''llo'')),
      Settled (Resolve (IterValue ''!'')), Settled (Resolve IterDone)]"
proof -
  have h: "int (length [''He'', ''llo'', ''!'']) \<le> default_maxSize"
    by (simp add: default_maxSize_def)
  show ?thesis
    using h push_complete_then_drain[OF h] by simp
qed

text \<open>
  Claim C2. On a new queue of capacity \<open>C\<close>, push \<open>N = length vs\<close> values with
  \<open>N \<le> C\<close>, then call \<^verbatim>\<open>fail(E)\<close> before any value is pulled. A consumer that pulls
  \<open>N + 1\<close> times, one call after the other, gets the \<open>N\<close> values first, in push order,
  and the last pull rejects with \<open>E\<close>: the buffered values are not discarded.
\<close>

theorem push_fail_then_pull:
  assumes "int (length vs) \<le> C"
  shows "pulls (Suc (length vs)) (fail (pushes (new_AsyncEventQueue C) vs) E) =
           map (\<lambda>v. Settled (Resolve (IterValue v))) vs @ [Settled (Reject E)]"
proof -
  let ?q = "fail (pushes (new_AsyncEventQueue C) vs) E"
  have "pushes (new_AsyncEventQueue C) vs = (new_AsyncEventQueue C)\<lparr>queue := vs\<rparr>"
    using assms pushes_no_overflow[of "new_AsyncEventQueue C" vs]
    by (simp add: new_AsyncEventQueue_def)
  then have q: "queue ?q = vs" and e: "error ?q = Some E"
    by (simp_all add: fail_def fail_loop_eq new_AsyncEventQueue_def)
  show ?thesis
    using pulls_Suc_buffered[of ?q] by (simp add: q e iter_next_def)
qed

theorem push_fail_then_pull_witness:
  "int (length [''a'', ''b'']) \<le> 2 \<and>
   pulls (Suc (length [''a'', ''b''])) (fail (pushes (new_AsyncEventQueue 2) [''a'', ''b'']) (Error ''boom'')) =
     [Settled (Resolve (IterValue ''a'')), Settled (Resolve (IterValue ''b'')),
      Settled (Reject (Error ''boom''))]"
proof -
  have h: "int (length [''a'', ''b'']) \<le> 2" by simp
  show ?thesis
    using push_fail_then_pull[OF h, of "Error ''boom''"] by simp
qed


subsection \<open>Overflow\<close>

lemma pushes_bounded:
  "\<not> done_flag q \<Longrightarrow> resolvers q = [] \<Longrightarrow> 1 \<le> maxSize q \<Longrightarrow>
   int (length (queue q)) \<le> maxSize q \<Longrightarrow>
   pushes q vs = q\<lparr>queue := drop (length (queue q @ vs) - nat (maxSize q)) (queue q @ vs),
                   warnings := warnings (pushes q vs)\<rparr>"
proof (induction vs arbitrary: q)
  case Nil
  then show ?case by simp
next
  case (Cons v vs)
  let ?p = "push q v"
  have p: "\<not> done_flag ?p" "resolvers ?p = []" "maxSize ?p = maxSize q"
    "int (length (queue ?p)) \<le> maxSize ?p"
    using Cons.prems by (auto simp: push_def Let_def)
  have d: "drop (length (queue ?p @ vs) - nat (maxSize q)) (queue ?p @ vs) =
           drop (length (queue q @ v # vs) - nat (maxSize q)) (queue q @ v # vs)"
  proof (cases "int (length (queue q)) \<ge> maxSize q")
    case True
    then have len: "length (queue q) = nat (maxSize q)" using Cons.prems by linarith
    then obtain x xs where q: "queue q = x # xs" using Cons.prems by (cases "queue q") auto
    have "queue ?p = xs @ [v]" using True Cons.prems q by (simp add: push_def Let_def)
    then show ?thesis using q len by (simp add: Suc_diff_le)
  next
    case False
    then have "queue ?p = queue q @ [v]" using Cons.prems by (simp add: push_def Let_def)
    then show ?thesis by simp
  qed
  have "pushes ?p vs =
          ?p\<lparr>queue := drop (length (queue ?p @ vs) - nat (maxSize ?p)) (queue ?p @ vs),
             warnings := warnings (pushes ?p vs)\<rparr>"
    using Cons.IH[OF p(1) p(2)] p(3) p(4) Cons.prems(3) by simp
  then have "pushes ?p vs =
          ?p\<lparr>queue := drop (length (queue q @ v # vs) - nat (maxSize q)) (queue q @ v # vs),
             warnings := warnings (pushes ?p vs)\<rparr>"
    using d p(3) by simp
  moreover have "?p\<lparr>queue := A, warnings := B\<rparr> = q\<lparr>queue := A, warnings := B\<rparr>" for A B
    using Cons.prems by (simp add: push_def Let_def)
  ultimately show ?case by simp
qed

text \<open>
  Claim C4. The class is private to its module, and the module builds its queues with
  the default capacity 1000; the statement is for every whole capacity \<open>C \<ge> 1\<close>.
  After any sequence \<open>vs\<close> of pushes on a new queue with no consumer pending, the
  buffer holds at most \<open>C\<close> elements, and these are the most recently pushed ones:
  the last \<open>min (length vs) C\<close> values of \<open>vs\<close>, in order. A further push on a
  buffer at capacity evicts the oldest value and appends the new one. \<^verbatim>\<open>push\<close>
  returns at once in every branch (it is a total function returning the next state):
  the producer is never blocked.
\<close>

theorem buffer_bounded_drop_oldest:
  assumes "1 \<le> C"
  shows "int (length (queue (pushes (new_AsyncEventQueue C) vs))) \<le> C \<and>
         queue (pushes (new_AsyncEventQueue C) vs) = drop (length vs - nat C) vs \<and>
         queue (push (pushes (new_AsyncEventQueue C) vs) v) =
           (if int (length (queue (pushes (new_AsyncEventQueue C) vs))) = C
            then tl (queue (pushes (new_AsyncEventQueue C) vs)) @ [v]
            else queue (pushes (new_AsyncEventQueue C) vs) @ [v])"
proof -
  let ?n = "new_AsyncEventQueue C :: 'a AsyncEventQueue"
  have e: "pushes ?n vs = ?n\<lparr>queue := drop (length vs - nat C) vs,
                   warnings := warnings (pushes ?n vs)\<rparr>"
    using pushes_bounded[of ?n vs] assms by (simp add: new_AsyncEventQueue_def)
  have q: "queue (pushes ?n vs) = drop (length vs - nat C) vs"
    by (subst e) simp
  have l: "int (length (queue (pushes ?n vs))) \<le> C"
    using assms by (simp add: q)
  have s: "\<not> done_flag (pushes ?n vs)" "resolvers (pushes ?n vs) = []"
    "maxSize (pushes ?n vs) = C"
    by (subst e, simp add: new_AsyncEventQueue_def)+
  have "queue (push (pushes ?n vs) v) =
           (if int (length (queue (pushes ?n vs))) = C
            then tl (queue (pushes ?n vs)) @ [v]
            else queue (pushes ?n vs) @ [v])"
    using s l by (simp add: push_def Let_def)
  with q l show ?thesis by blast
qed

theorem buffer_bounded_drop_oldest_witness:
  "1 \<le> default_maxSize \<and>
   int (length (queue (pushes (new_AsyncEventQueue default_maxSize) [''a'', ''b'', ''c'']))) \<le>
     default_maxSize \<and>
   queue (pushes (new_AsyncEventQueue default_maxSize) [''a'', ''b'', ''c'']) = [''a'', ''b'', ''c''] \<and>
   (1::int) \<le> 2 \<and>
   queue (pushes (new_AsyncEventQueue 2) [''a'', ''b'', ''c'']) = [''b'', ''c''] \<and>
   queue (push (pushes (new_AsyncEventQueue 2) [''a'', ''b'', ''c'']) ''d'') = [''c'', ''d'']"
proof -
  have h: "1 \<le> default_maxSize" by (simp add: default_maxSize_def)
  show ?thesis
    using h buffer_bounded_drop_oldest[OF h, of "[''a'', ''b'', ''c'']" "''d''"]
      buffer_bounded_drop_oldest[of 2 "[''a'', ''b'', ''c'']" "''d''"]
    by (simp add: default_maxSize_def)
qed

subsection \<open>Terminal states\<close>

lemma paired_new: "paired (new_AsyncEventQueue m)"
  by (simp add: paired_def new_AsyncEventQueue_def)

lemma paired_apply_op: "paired q \<Longrightarrow> paired (apply_op q x)"
  by (cases x)
     (auto simp: paired_def push_def complete_def fail_def iter_next_def
                 complete_loop_eq fail_loop_eq
           split: list.splits option.splits if_splits)

lemma paired_run_ops: "paired q \<Longrightarrow> paired (run_ops q xs)"
  by (induction xs arbitrary: q) (simp_all add: paired_apply_op)

lemma terminal_complete: "paired q \<Longrightarrow> done_flag q \<Longrightarrow> complete q = q"
  by (cases q) (simp add: paired_def complete_def complete_loop_eq)

lemma terminal_fail: "paired q \<Longrightarrow> done_flag q \<Longrightarrow> fail q e = q\<lparr>error := Some e\<rparr>"
  by (cases q) (simp add: paired_def fail_def fail_loop_eq)

text \<open>
  Claim C3, as stated: a second terminal call has no effect the consumer can observe.
  It fails for \<^verbatim>\<open>fail\<close> after \<^verbatim>\<open>complete\<close>: \<^verbatim>\<open>fail\<close> stores the error whatever the
  state of the queue is, and \<^verbatim>\<open>next\<close> tests the error before the done flag. On a new
  queue that was completed, \<^verbatim>\<open>next\<close> reports done; after a later \<^verbatim>\<open>fail\<close> it rejects.
  It fails as well for a second \<^verbatim>\<open>fail\<close> with another error: \<^verbatim>\<open>next\<close> then rejects
  with the second error instead of the first.
\<close>

theorem fail_after_complete_observed:
  "fst (iter_next (complete (new_AsyncEventQueue default_maxSize :: string AsyncEventQueue))) =
     Settled (Resolve IterDone) \<and>
   fst (iter_next (fail (complete (new_AsyncEventQueue default_maxSize :: string AsyncEventQueue))
                        (Error ''late''))) =
     Settled (Reject (Error ''late'')) \<and>
   fst (iter_next (fail (new_AsyncEventQueue default_maxSize :: string AsyncEventQueue)
                        (Error ''first''))) =
     Settled (Reject (Error ''first'')) \<and>
   fst (iter_next (fail (fail (new_AsyncEventQueue default_maxSize :: string AsyncEventQueue)
                              (Error ''first'')) (Error ''second''))) =
     Settled (Reject (Error ''second''))"
  by (simp add: complete_def fail_def complete_loop_eq fail_loop_eq iter_next_def
      new_AsyncEventQueue_def)

text \<open>
  Claim C3, amended. Let the queue be in any terminal state that a history of calls
  can reach from a new queue (terminal through \<^verbatim>\<open>complete\<close> or through \<^verbatim>\<open>fail\<close>).
  Then \<^verbatim>\<open>complete()\<close> leaves the whole state as it is, and so does \<^verbatim>\<open>fail(E)\<close> when
  the queue has already failed with the same error \<open>E\<close>; in particular the consumer
  observes no difference. Neither call throws: both are total and have no error
  branch. (What \<^verbatim>\<open>fail(E)\<close> does on a completed queue, or on one that failed with
  another error, is not part of the amended claim.)
\<close>

theorem terminal_calls_repeatable:
  assumes "done_flag (run_ops (new_AsyncEventQueue m) ops)"
  shows "complete (run_ops (new_AsyncEventQueue m) ops) = run_ops (new_AsyncEventQueue m) ops \<and>
         (error (run_ops (new_AsyncEventQueue m) ops) = Some e \<longrightarrow>
            fail (run_ops (new_AsyncEventQueue m) ops) e = run_ops (new_AsyncEventQueue m) ops)"
proof -
  let ?q = "run_ops (new_AsyncEventQueue m) ops"
  have p: "paired ?q" by (simp add: paired_run_ops paired_new)
  have c: "complete ?q = ?q" using p assms by (rule terminal_complete)
  have f: "fail ?q e = ?q\<lparr>error := Some e\<rparr>" using p assms by (rule terminal_fail)
  have "?q\<lparr>error := Some e\<rparr> = ?q" if "error ?q = Some e"
    using that by (cases ?q) simp
  then show ?thesis using c f by simp
qed

theorem terminal_calls_repeatable_witness:
  "done_flag (run_ops (new_AsyncEventQueue 2) [Next, Push ''a'', Push ''b'', Fail (Error ''E''), Next]) \<and>
   error (run_ops (new_AsyncEventQueue 2) [Next, Push ''a'', Push ''b'', Fail (Error ''E''), Next]) =
     Some (Error ''E'') \<and>
   complete (run_ops (new_AsyncEventQueue 2) [Next, Push ''a'', Push ''b'', Fail (Error ''E''), Next]) =
     run_ops (new_AsyncEventQueue 2) [Next, Push ''a'', Push ''b'', Fail (Error ''E''), Next] \<and>
   fail (run_ops (new_AsyncEventQueue 2) [Next, Push ''a'', Push ''b'', Fail (Error ''E''), Next])
        (Error ''E'') =
     run_ops (new_AsyncEventQueue 2) [Next, Push ''a'', Push ''b'', Fail (Error ''E''), Next]"
proof -
  have d: "done_flag (run_ops (new_AsyncEventQueue 2)
             [Next, Push ''a'', Push ''b'', Fail (Error ''E''), Next])"
    by (simp add: push_def fail_def fail_loop_eq iter_next_def new_AsyncEventQueue_def)
  have e: "error (run_ops (new_AsyncEventQueue 2)
             [Next, Push ''a'', Push ''b'', Fail (Error ''E''), Next]) = Some (Error ''E'')"
    by (simp add: push_def fail_def fail_loop_eq iter_next_def new_AsyncEventQueue_def)
  show ?thesis
    using d e terminal_calls_repeatable[OF d, of "Error ''E''"] by blast
qed


subsection \<open>Fields after a terminal call\<close>

lemma fail_fields:
  "queue (fail q e) = queue q" "error (fail q e) = Some e" "done_flag (fail q e)"
  "rejecters (fail q e) = []"
  "settled (fail q e) = settled q @ map (\<lambda>r. (r, Reject e)) (rejecters q)"
  by (simp_all add: fail_def fail_loop_eq)

lemma complete_fields:
  "queue (complete q) = queue q" "error (complete q) = error q" "done_flag (complete q)"
  "resolvers (complete q) = []"
  "settled (complete q) = settled q @ map (\<lambda>r. (r, Resolve IterDone)) (resolvers q)"
  by (simp_all add: complete_def complete_loop_eq)

lemma pulls_failed:
  "pulls (Suc (length (queue q))) (fail q e) =
     map (\<lambda>v. Settled (Resolve (IterValue v))) (queue q) @ [Settled (Reject e)]"
  using pulls_Suc_buffered[of "fail q e"] by (simp add: fail_fields iter_next_def)



lemma closed_complete: "closed_queue q \<Longrightarrow> complete q = q"
  by (cases q) (simp add: closed_queue_def complete_def complete_loop_eq)

lemma closed_push: "closed_queue q \<Longrightarrow> push q v = q"
  by (simp add: closed_queue_def push_def Let_def)

lemma closed_iter_next: "closed_queue q \<Longrightarrow> closed_queue (snd (iter_next q))"
  by (auto simp: closed_queue_def iter_next_def split: list.splits option.splits)

lemma closed_after_complete: "closed_queue (complete q)"
  by (simp add: closed_queue_def complete_fields)

section \<open>Properties of the streaming session\<close>

subsection \<open>Teardown\<close>

lemma performCleanup_resolves: "fst (performCleanup s) = Inr ()"
  by (simp add: performCleanup_def Let_def split: sum.splits)

lemma performCleanup_cleanedUp: "cleanedUp (snd (performCleanup s))"
  by (auto simp: performCleanup_def session_destroy_def Let_def split: sum.splits)

lemma performCleanup_counts: "cleanupCalls (snd (performCleanup s)) = Suc (cleanupCalls s)"
  by (auto simp: performCleanup_def session_destroy_def Let_def split: sum.splits)

lemma performCleanup_queues:
  "textQueue (snd (performCleanup s)) = textQueue s"
  "reasoningQueue (snd (performCleanup s)) = reasoningQueue s"
  by (auto simp: performCleanup_def session_destroy_def Let_def split: sum.splits)

lemma performCleanup_destroys:
  "destroyCalls (session (snd (performCleanup s))) =
     (if cleanedUp s then destroyCalls (session s) else Suc (destroyCalls (session s)))"
  by (auto simp: performCleanup_def session_destroy_def Let_def split: sum.splits option.splits)

lemma performCleanup_unsubscribes:
  "subscribed (session (snd (performCleanup s))) = (cleanedUp s \<and> subscribed (session s))"
  by (auto simp: performCleanup_def session_destroy_def Let_def split: sum.splits option.splits)

lemma performCleanup_notices: "notices (snd (performCleanup s)) = notices s"
  by (auto simp: performCleanup_def session_destroy_def Let_def split: sum.splits option.splits)

lemma performCleanup_logs:
  "\<not> cleanedUp s \<Longrightarrow> destroyThrows (session s) = Some t \<Longrightarrow>
   console (snd (performCleanup s)) = console s @ [''Error destroying Copilot session:'']"
  by (simp add: performCleanup_def session_destroy_def Let_def)

lemma one_shot_performCleanup: "one_shot s \<Longrightarrow> one_shot (snd (performCleanup s))"
  by (auto simp: one_shot_def performCleanup_def session_destroy_def Let_def split: sum.splits)

lemma handler_session_error:
  "handler (Event ''session.error'' d) s =
     snd (performCleanup
       (s\<lparr>textQueue := fail (textQueue s) (Error (''Copilot streaming error: '' @ errorMessage_of d)),
          reasoningQueue :=
            fail (reasoningQueue s) (Error (''Copilot streaming error: '' @ errorMessage_of d)),
          console := console s @ [''Copilot session error:''],
          notices := notices s @ [''Copilot error: '' @ errorMessage_of d]\<rparr>))"
  by (simp add: handler_def Let_def performCleanup_resolves)

lemma one_shot_handler: "one_shot s \<Longrightarrow> one_shot (handler ev s)"
proof (cases ev)
  case InvalidEvent
  assume "one_shot s"
  then show ?thesis using InvalidEvent by (simp add: handler_def one_shot_def)
next
  case (Event ty d)
  assume a: "one_shot s"
  let ?err = "Error (''Copilot streaming error: '' @ errorMessage_of d)"
  let ?s3 = "s\<lparr>textQueue := fail (textQueue s) ?err,
               reasoningQueue := fail (reasoningQueue s) ?err,
               console := console s @ [''Copilot session error:''],
               notices := notices s @ [''Copilot error: '' @ errorMessage_of d]\<rparr>"
  have "one_shot ?s3" using a by (simp add: one_shot_def)
  then have "one_shot (snd (performCleanup ?s3))" by (rule one_shot_performCleanup)
  then show ?thesis
    using a Event
    by (auto simp: handler_def Let_def performCleanup_resolves one_shot_def split: option.splits)
qed

lemma one_shot_emit: "one_shot s \<Longrightarrow> one_shot (emit ev s)"
  by (simp add: emit_def one_shot_handler)

lemma one_shot_emits: "one_shot s \<Longrightarrow> one_shot (emits evs s)"
  by (induction evs arbitrary: s) (simp_all add: one_shot_emit)

lemma one_shot_abort: "one_shot s \<Longrightarrow> one_shot (abort s)"
  by (simp add: abort_def one_shot_def Let_def)

lemma one_shot_act: "one_shot s \<Longrightarrow> one_shot (act s a)"
  by (cases a)
     (simp_all add: one_shot_emit one_shot_abort one_shot_performCleanup,
      simp_all add: one_shot_def)

lemma one_shot_acts: "one_shot s \<Longrightarrow> one_shot (acts s as)"
  by (induction as arbitrary: s) (simp_all add: one_shot_act)

lemma one_shot_outcome:
  assumes "stream_of (copilot_sdk_streaming conv cf db evs sf) = Some s"
  shows "one_shot s"
proof -
  have b: "one_shot (emits evs ((new_stream db)\<lparr>session := (session (new_stream db))\<lparr>sent := x\<rparr>\<rparr>))"
    for x
    by (rule one_shot_emits) (simp add: one_shot_def new_stream_def)
  have c: "one_shot (snd (performCleanup (t\<lparr>textQueue := A, reasoningQueue := B\<rparr>)))"
    if "one_shot t" for t A B
    by (rule one_shot_performCleanup) (use that in \<open>simp add: one_shot_def\<close>)
  show ?thesis
    using assms b c
    by (auto simp: copilot_sdk_streaming_def Let_def performCleanup_resolves
             split: sum.splits option.splits)
qed

text \<open>
  Claim C9. Take the stream of any call of \<^verbatim>\<open>copilot_sdk_streaming\<close> that created a
  session (returned, or rejected after a failed dispatch), and let anything happen to
  it afterwards, in any order: events, \<^verbatim>\<open>abort\<close>, \<^verbatim>\<open>cleanup\<close>, pulls. Then
  \<^verbatim>\<open>session.destroy\<close> was executed exactly once if \<^verbatim>\<open>performCleanup\<close> was invoked at
  all (by the error path of the handler, by the caller's \<^verbatim>\<open>cleanup\<close>, or by the
  dispatch failure) and never otherwise; one more \<^verbatim>\<open>cleanup\<close> leaves the count at one.
  \<^verbatim>\<open>performCleanup\<close> never rejects: a failure of \<^verbatim>\<open>destroy\<close> is caught and logged.
\<close>

theorem teardown_one_shot:
  assumes "stream_of (copilot_sdk_streaming conv cf db evs sf) = Some s"
  shows "destroyCalls (session (acts s as)) = (if cleanupCalls (acts s as) = 0 then 0 else 1) \<and>
         destroyCalls (session (snd (performCleanup (acts s as)))) = 1 \<and>
         fst (performCleanup (acts s as)) = Inr () \<and>
         (\<not> cleanedUp (acts s as) \<and> destroyThrows (session (acts s as)) = Some t \<longrightarrow>
            console (snd (performCleanup (acts s as))) =
              console (acts s as) @ [''Error destroying Copilot session:''])"
proof -
  have "one_shot (acts s as)"
    using assms by (simp add: one_shot_outcome one_shot_acts)
  moreover from this have "one_shot (snd (performCleanup (acts s as)))"
    by (rule one_shot_performCleanup)
  ultimately show ?thesis
    using performCleanup_cleanedUp[of "acts s as"] performCleanup_logs[of "acts s as" t]
    by (auto simp: one_shot_def performCleanup_resolves)
qed

theorem teardown_one_shot_witness:
  "stream_of (copilot_sdk_streaming [\<lparr>role = ''user'', content = ''hi''\<rparr>] None
      (Some (ThrownOther ''gone'')) [] None) =
     Some ((new_stream (Some (ThrownOther ''gone'')))
            \<lparr>session := (session (new_stream (Some (ThrownOther ''gone''))))\<lparr>sent := [''hi'']\<rparr>\<rparr>) \<and>
   cleanupCalls (acts ((new_stream (Some (ThrownOther ''gone'')))
            \<lparr>session := (session (new_stream (Some (ThrownOther ''gone''))))\<lparr>sent := [''hi'']\<rparr>\<rparr>)
      [Emit (Event ''session.error'' None), Cleanup, Cleanup]) = 3 \<and>
   destroyCalls (session (acts ((new_stream (Some (ThrownOther ''gone'')))
            \<lparr>session := (session (new_stream (Some (ThrownOther ''gone''))))\<lparr>sent := [''hi'']\<rparr>\<rparr>)
      [Emit (Event ''session.error'' None), Cleanup, Cleanup])) = 1 \<and>
   fst (performCleanup (acts ((new_stream (Some (ThrownOther ''gone'')))
            \<lparr>session := (session (new_stream (Some (ThrownOther ''gone''))))\<lparr>sent := [''hi'']\<rparr>\<rparr>)
      [Emit (Event ''session.error'' None), Cleanup, Cleanup])) = Inr ()"
proof -
  let ?s = "(new_stream (Some (ThrownOther ''gone'')))
            \<lparr>session := (session (new_stream (Some (ThrownOther ''gone''))))\<lparr>sent := [''hi'']\<rparr>\<rparr>"
  let ?as = "[Emit (Event ''session.error'' None), Cleanup, Cleanup]"
  have h: "stream_of (copilot_sdk_streaming [\<lparr>role = ''user'', content = ''hi''\<rparr>] None
      (Some (ThrownOther ''gone'')) [] None) = Some ?s"
    by (simp add: copilot_sdk_streaming_def ConversationSchema_parse_def lastUserMessage_def
        new_stream_def)
  have c: "cleanupCalls (acts ?s ?as) = 3"
    by (simp add: handler_session_error emit_def performCleanup_counts new_stream_def)
  show ?thesis
    using h c teardown_one_shot[OF h, of ?as] by simp
qed

subsection \<open>Errors reported by the session\<close>

lemma rejection_of_streaming:
  "rejection_of (copilot_sdk_streaming conv cf db evs sf) =
   rejection_of (copilot_sdk_streaming conv cf db [] sf)"
  by (auto simp: copilot_sdk_streaming_def Let_def performCleanup_resolves
           split: sum.splits option.splits)

text \<open>
  Claim C7. When the handler receives a \<^verbatim>\<open>session.error\<close> event with data \<open>d\<close>, both
  queues are failed with the error \<^verbatim>\<open>Copilot streaming error: <message>\<close>: consumers
  that were waiting are rejected with it, and a consumer that pulls gets what was
  buffered and then a rejection with it. The message is the one the backend reported
  whenever it reported a truthy one, and a notice with it is shown. Teardown is
  triggered: \<^verbatim>\<open>performCleanup\<close> is invoked; unless the stream was cleaned up before,
  this calls \<^verbatim>\<open>session.destroy\<close> once more and leaves the handler unsubscribed. In
  particular, when the session of any call emits the event at any later moment at
  which the handler is still subscribed, \<^verbatim>\<open>session.destroy\<close> has run exactly once
  afterwards and the handler is unsubscribed. Whether and with what the call of
  \<^verbatim>\<open>copilot_sdk_streaming\<close> itself rejects does not depend on the events received
  while it runs, so the error of the event is never a failure of the call.
\<close>

theorem session_error_fails_both_queues:
  "error (textQueue (handler (Event ''session.error'' d) s)) =
     Some (Error (''Copilot streaming error: '' @ errorMessage_of d)) \<and>
   error (reasoningQueue (handler (Event ''session.error'' d) s)) =
     Some (Error (''Copilot streaming error: '' @ errorMessage_of d)) \<and>
   pulls (Suc (length (queue (textQueue s)))) (textQueue (handler (Event ''session.error'' d) s)) =
     map (\<lambda>v. Settled (Resolve (IterValue v))) (queue (textQueue s)) @
     [Settled (Reject (Error (''Copilot streaming error: '' @ errorMessage_of d)))] \<and>
   pulls (Suc (length (queue (reasoningQueue s))))
         (reasoningQueue (handler (Event ''session.error'' d) s)) =
     map (\<lambda>v. Settled (Resolve (IterValue v))) (queue (reasoningQueue s)) @
     [Settled (Reject (Error (''Copilot streaming error: '' @ errorMessage_of d)))] \<and>
   settled (textQueue (handler (Event ''session.error'' d) s)) =
     settled (textQueue s) @
     map (\<lambda>r. (r, Reject (Error (''Copilot streaming error: '' @ errorMessage_of d))))
         (rejecters (textQueue s)) \<and>
   settled (reasoningQueue (handler (Event ''session.error'' d) s)) =
     settled (reasoningQueue s) @
     map (\<lambda>r. (r, Reject (Error (''Copilot streaming error: '' @ errorMessage_of d))))
         (rejecters (reasoningQueue s)) \<and>
   errorMessage_of (Some \<lparr>deltaContent = dc, message = Some m\<rparr>) = m \<and>
   notices (handler (Event ''session.error'' d) s) =
     notices s @ [''Copilot error: '' @ errorMessage_of d] \<and>
   cleanupCalls (handler (Event ''session.error'' d) s) = Suc (cleanupCalls s) \<and>
   cleanedUp (handler (Event ''session.error'' d) s) \<and>
   destroyCalls (session (handler (Event ''session.error'' d) s)) =
     (if cleanedUp s then destroyCalls (session s) else Suc (destroyCalls (session s))) \<and>
   subscribed (session (handler (Event ''session.error'' d) s)) =
     (cleanedUp s \<and> subscribed (session s)) \<and>
   (stream_of (copilot_sdk_streaming conv cf db evs sf) = Some s0 \<and>
    subscribed (session (acts s0 as)) \<longrightarrow>
      destroyCalls (session (emit (Event ''session.error'' d) (acts s0 as))) = 1 \<and>
      \<not> subscribed (session (emit (Event ''session.error'' d) (acts s0 as))) \<and>
      error (textQueue (emit (Event ''session.error'' d) (acts s0 as))) =
        Some (Error (''Copilot streaming error: '' @ errorMessage_of d)) \<and>
      error (reasoningQueue (emit (Event ''session.error'' d) (acts s0 as))) =
        Some (Error (''Copilot streaming error: '' @ errorMessage_of d))) \<and>
   rejection_of (copilot_sdk_streaming conv cf db (pre @ Event ''session.error'' d # post) sf) =
     rejection_of (copilot_sdk_streaming conv cf db [] sf)"
proof -
  let ?ev = "Event ''session.error'' d"
  let ?err = "Error (''Copilot streaming error: '' @ errorMessage_of d)"
  have tq: "textQueue (handler ?ev s) = fail (textQueue s) ?err"
    and rq: "reasoningQueue (handler ?ev s) = fail (reasoningQueue s) ?err"
    for s
    unfolding handler_session_error by (simp_all add: performCleanup_queues)
  have cc: "cleanupCalls (handler ?ev s) = Suc (cleanupCalls s)"
    unfolding handler_session_error by (simp add: performCleanup_counts)
  have cu: "cleanedUp (handler ?ev s)"
    unfolding handler_session_error by (rule performCleanup_cleanedUp)
  have dc: "destroyCalls (session (handler ?ev s)) =
              (if cleanedUp s then destroyCalls (session s) else Suc (destroyCalls (session s)))"
    for s
    unfolding handler_session_error by (simp add: performCleanup_destroys)
  have us: "subscribed (session (handler ?ev s)) = (cleanedUp s \<and> subscribed (session s))"
    for s
    unfolding handler_session_error by (simp add: performCleanup_unsubscribes)
  have nt: "notices (handler ?ev s) = notices s @ [''Copilot error: '' @ errorMessage_of d]"
    unfolding handler_session_error by (simp add: performCleanup_notices)
  have p1: "pulls (Suc (length (queue (textQueue s)))) (textQueue (handler ?ev s)) =
           map (\<lambda>v. Settled (Resolve (IterValue v))) (queue (textQueue s)) @ [Settled (Reject ?err)]"
    unfolding tq by (rule pulls_failed)
  have p2: "pulls (Suc (length (queue (reasoningQueue s)))) (reasoningQueue (handler ?ev s)) =
           map (\<lambda>v. Settled (Resolve (IterValue v))) (queue (reasoningQueue s)) @
           [Settled (Reject ?err)]"
    unfolding rq by (rule pulls_failed)
  have e1: "error (textQueue (handler ?ev s)) = Some ?err"
    and e2: "error (reasoningQueue (handler ?ev s)) = Some ?err"
    for s
    unfolding tq rq by (rule fail_fields)+
  have l1: "settled (textQueue (handler ?ev s)) =
               settled (textQueue s) @ map (\<lambda>r. (r, Reject ?err)) (rejecters (textQueue s))"
    and l2: "settled (reasoningQueue (handler ?ev s)) =
               settled (reasoningQueue s) @
               map (\<lambda>r. (r, Reject ?err)) (rejecters (reasoningQueue s))"
    unfolding tq rq by (rule fail_fields)+
  have m: "errorMessage_of (Some \<lparr>deltaContent = dc, message = Some m\<rparr>) = m"
    by (simp add: errorMessage_of_def)
  have live: "destroyCalls (session (emit ?ev (acts s0 as))) = 1 \<and>
      \<not> subscribed (session (emit ?ev (acts s0 as))) \<and>
      error (textQueue (emit ?ev (acts s0 as))) = Some ?err \<and>
      error (reasoningQueue (emit ?ev (acts s0 as))) = Some ?err"
    if a: "stream_of (copilot_sdk_streaming conv cf db evs sf) = Some s0"
      and b: "subscribed (session (acts s0 as))"
  proof -
    have "one_shot (acts s0 as)" using a by (simp add: one_shot_outcome one_shot_acts)
    then have "\<not> cleanedUp (acts s0 as)" "destroyCalls (session (acts s0 as)) = 0"
      using b by (auto simp: one_shot_def)
    then show ?thesis using b by (simp add: emit_def dc us e1 e2)
  qed
  note r = rejection_of_streaming[of conv cf db "pre @ ?ev # post" sf]
  from e1 e2 p1 p2 l1 l2 m nt cc cu dc us live r show ?thesis by blast
qed

theorem session_error_fails_both_queues_witness:
  "pulls (Suc (Suc 0))
     (textQueue (handler (Event ''session.error'' (Some \<lparr>deltaContent = None, message = Some ''rate limited''\<rparr>))
        (emits [Event ''assistant.message_delta'' (Some \<lparr>deltaContent = Some ''He'', message = None\<rparr>)]
           (new_stream None)))) =
     [Settled (Resolve (IterValue ''He'')),
      Settled (Reject (Error ''Copilot streaming error: rate limited''))] \<and>
   stream_of (copilot_sdk_streaming [\<lparr>role = ''user'', content = ''hi''\<rparr>] None None [] None) =
     Some ((new_stream None)\<lparr>session := (session (new_stream None))\<lparr>sent := [''hi'']\<rparr>\<rparr>) \<and>
   subscribed (session (acts
     ((new_stream None)\<lparr>session := (session (new_stream None))\<lparr>sent := [''hi'']\<rparr>\<rparr>) [])) \<and>
   destroyCalls (session (emit
     (Event ''session.error'' (Some \<lparr>deltaContent = None, message = Some ''rate limited''\<rparr>))
     (acts ((new_stream None)\<lparr>session := (session (new_stream None))\<lparr>sent := [''hi'']\<rparr>\<rparr>) []))) = 1 \<and>
   \<not> subscribed (session (emit
     (Event ''session.error'' (Some \<lparr>deltaContent = None, message = Some ''rate limited''\<rparr>))
     (acts ((new_stream None)\<lparr>session := (session (new_stream None))\<lparr>sent := [''hi'']\<rparr>\<rparr>) []))) \<and>
   errorMessage_of (Some \<lparr>deltaContent = None, message = Some ''42''\<rparr>) = ''42'' \<and>
   rejection_of (copilot_sdk_streaming [\<lparr>role = ''user'', content = ''hi''\<rparr>] None None
      ([] @ Event ''session.error'' (Some \<lparr>deltaContent = None, message = Some ''rate limited''\<rparr>) # []) None) =
     None"
proof -
  let ?d = "Some \<lparr>deltaContent = None, message = Some ''rate limited''\<rparr>"
  let ?s = "emits [Event ''assistant.message_delta'' (Some \<lparr>deltaContent = Some ''He'', message = None\<rparr>)]
             (new_stream None)"
  let ?init = "(new_stream None)\<lparr>session := (session (new_stream None))\<lparr>sent := [''hi'']\<rparr>\<rparr>"
  have q: "queue (textQueue ?s) = [''He'']"
    by (simp add: emit_def handler_def delta_of_def push_def new_stream_def
        new_AsyncEventQueue_def default_maxSize_def)
  have m: "errorMessage_of ?d = ''rate limited''"
    by (simp add: errorMessage_of_def)
  have n: "rejection_of (copilot_sdk_streaming [\<lparr>role = ''user'', content = ''hi''\<rparr>] None None [] None) = None"
    by (simp add: copilot_sdk_streaming_def ConversationSchema_parse_def lastUserMessage_def
        Let_def)
  have h: "stream_of (copilot_sdk_streaming [\<lparr>role = ''user'', content = ''hi''\<rparr>] None None [] None) =
             Some ?init"
    by (simp add: copilot_sdk_streaming_def ConversationSchema_parse_def lastUserMessage_def
        Let_def new_stream_def)
  have b: "subscribed (session (acts ?init []))"
    by (simp add: new_stream_def)
  show ?thesis
    using h b session_error_fails_both_queues[where d = ?d and s = ?s and dc = None and m = "''42''"
        and conv = "[\<lparr>role = ''user'', content = ''hi''\<rparr>]" and cf = None and db = None
        and evs = "[]" and s0 = ?init and as = "[]"
        and pre = "[]" and post = "[]" and sf = None]
    unfolding q m n by simp
qed

subsection \<open>Dispatch failure\<close>



subsection \<open>Abort\<close>

lemma handler_closed:
  assumes "closed_queue (textQueue s)" "closed_queue (reasoningQueue s)" "\<not> is_session_error ev"
  shows "textQueue (handler ev s) = textQueue s \<and> reasoningQueue (handler ev s) = reasoningQueue s"
proof (cases ev)
  case InvalidEvent
  then show ?thesis by (simp add: handler_def)
next
  case (Event ty d)
  then have "ty \<noteq> ''session.error''" using assms(3) by simp
  then show ?thesis
    using assms(1,2) Event
    by (simp add: handler_def Let_def closed_complete closed_push split: option.splits)
qed

lemma act_closed:
  assumes "closed_queue (textQueue s)" "closed_queue (reasoningQueue s)"
    and "no_error_event a" "\<not> is_pull a"
  shows "textQueue (act s a) = textQueue s \<and> reasoningQueue (act s a) = reasoningQueue s"
proof (cases a)
  case (Emit ev)
  then show ?thesis using assms handler_closed[of s ev] by (simp add: emit_def)
next
  case Abort
  then show ?thesis using assms by (simp add: abort_def Let_def closed_complete)
next
  case Cleanup
  then show ?thesis by (simp add: performCleanup_queues)
next
  case NextText
  then show ?thesis using assms by simp
next
  case NextReasoning
  then show ?thesis using assms by simp
qed

lemma acts_closed:
  "closed_queue (textQueue s) \<Longrightarrow> closed_queue (reasoningQueue s) \<Longrightarrow>
   textQueue s' = textQueue s \<Longrightarrow> reasoningQueue s' = reasoningQueue s \<Longrightarrow>
   list_all no_error_event as \<Longrightarrow>
   textQueue (acts s as) = textQueue (acts s' (filter is_pull as)) \<and>
   reasoningQueue (acts s as) = reasoningQueue (acts s' (filter is_pull as))"
proof (induction as arbitrary: s s')
  case Nil
  then show ?case by simp
next
  case (Cons a as)
  show ?case
  proof (cases "is_pull a")
    case True
    then have "a = NextText \<or> a = NextReasoning" by (cases a) auto
    then have "closed_queue (textQueue (act s a))" "closed_queue (reasoningQueue (act s a))"
        "textQueue (act s' a) = textQueue (act s a)"
        "reasoningQueue (act s' a) = reasoningQueue (act s a)"
      using Cons.prems by (auto simp: closed_iter_next)
    then show ?thesis
      using Cons.IH[of "act s a" "act s' a"] Cons.prems(5) True by simp
  next
    case False
    have "textQueue (act s a) = textQueue s \<and> reasoningQueue (act s a) = reasoningQueue s"
      using act_closed[of s a] Cons.prems False by simp
    then have "closed_queue (textQueue (act s a))" "closed_queue (reasoningQueue (act s a))"
        "textQueue s' = textQueue (act s a)" "reasoningQueue s' = reasoningQueue (act s a)"
      using Cons.prems by simp_all
    then show ?thesis
      using Cons.IH[of "act s a" s'] Cons.prems(5) False by simp
  qed
qed

lemma abort_queues:
  "textQueue (abort s) = complete (textQueue s)"
  "reasoningQueue (abort s) = complete (reasoningQueue s)"
  by (simp_all add: abort_def Let_def)

text \<open>
  Claim C6, as stated: after \<^verbatim>\<open>abort\<close>, no later event changes what the consumer
  observes, a later \<^verbatim>\<open>session.error\<close> included. It fails: \<^verbatim>\<open>abort\<close> leaves the handler
  subscribed, and the handler fails both queues on \<^verbatim>\<open>session.error\<close> whatever their
  state. A stream got one delta; after \<^verbatim>\<open>abort\<close> two pulls give the delta and then
  end-of-sequence, but if a \<^verbatim>\<open>session.error\<close> event arrives after the \<^verbatim>\<open>abort\<close>, the
  second pull rejects.
\<close>

theorem session_error_after_abort_observed:
  "copilot_sdk_streaming [\<lparr>role = ''user'', content = ''hi''\<rparr>] None None
     [Event ''assistant.message_delta'' (Some \<lparr>deltaContent = Some ''He'', message = None\<rparr>)]
     None =
     Returned (emits
       [Event ''assistant.message_delta'' (Some \<lparr>deltaContent = Some ''He'', message = None\<rparr>)]
       ((new_stream None)\<lparr>session := (session (new_stream None))\<lparr>sent := [''hi'']\<rparr>\<rparr>)) \<and>
   pulls (Suc (Suc 0)) (textQueue (acts (emits
       [Event ''assistant.message_delta'' (Some \<lparr>deltaContent = Some ''He'', message = None\<rparr>)]
       ((new_stream None)\<lparr>session := (session (new_stream None))\<lparr>sent := [''hi'']\<rparr>\<rparr>))
     [Abort])) =
     [Settled (Resolve (IterValue ''He'')), Settled (Resolve IterDone)] \<and>
   pulls (Suc (Suc 0)) (textQueue (acts (emits
       [Event ''assistant.message_delta'' (Some \<lparr>deltaContent = Some ''He'', message = None\<rparr>)]
       ((new_stream None)\<lparr>session := (session (new_stream None))\<lparr>sent := [''hi'']\<rparr>\<rparr>))
     [Abort,
      Emit (Event ''session.error'' (Some \<lparr>deltaContent = None, message = Some ''boom''\<rparr>))])) =
     [Settled (Resolve (IterValue ''He'')),
      Settled (Reject (Error ''Copilot streaming error: boom''))]"
  by (simp add: copilot_sdk_streaming_def ConversationSchema_parse_def lastUserMessage_def Let_def
      new_stream_def emit_def handler_def delta_of_def errorMessage_of_def abort_def
      performCleanup_def session_destroy_def
      push_def complete_def fail_def complete_loop_eq fail_loop_eq iter_next_def
      new_AsyncEventQueue_def default_maxSize_def)

text \<open>
  Claim C6, amended. On a stream whose queues have not failed, \<^verbatim>\<open>abort\<close> brings both
  queues to end-of-sequence at once, by completion and not by failure: the consumers that were waiting
  are resolved with done, and a consumer that pulls until done gets what was buffered
  and then end-of-sequence. Afterwards, whatever happens besides the pulls of the
  consumers (events other than \<^verbatim>\<open>session.error\<close>, further \<^verbatim>\<open>abort\<close> or \<^verbatim>\<open>cleanup\<close> calls),
  in any interleaving with those pulls, leaves both queues as the pulls alone would
  leave them. (A \<^verbatim>\<open>session.error\<close> event after the abort is not covered.)
\<close>

theorem abort_completes_both_queues:
  assumes "error (textQueue s) = None" and "error (reasoningQueue s) = None"
    and "list_all no_error_event as"
  shows "pull_until_done (textQueue (abort s)) =
           map (\<lambda>v. Settled (Resolve (IterValue v))) (queue (textQueue s)) @
           [Settled (Resolve IterDone)] \<and>
         pull_until_done (reasoningQueue (abort s)) =
           map (\<lambda>v. Settled (Resolve (IterValue v))) (queue (reasoningQueue s)) @
           [Settled (Resolve IterDone)] \<and>
         settled (textQueue (abort s)) =
           settled (textQueue s) @ map (\<lambda>r. (r, Resolve IterDone)) (resolvers (textQueue s)) \<and>
         settled (reasoningQueue (abort s)) =
           settled (reasoningQueue s) @
           map (\<lambda>r. (r, Resolve IterDone)) (resolvers (reasoningQueue s)) \<and>
         textQueue (acts (abort s) as) = textQueue (acts (abort s) (filter is_pull as)) \<and>
         reasoningQueue (acts (abort s) as) = reasoningQueue (acts (abort s) (filter is_pull as))"
proof -
  have t: "pull_until_done (textQueue (abort s)) =
           map (\<lambda>v. Settled (Resolve (IterValue v))) (queue (textQueue s)) @
           [Settled (Resolve IterDone)]"
    using pull_until_done_terminal[of "complete (textQueue s)"] assms(1)
    by (simp add: abort_queues complete_fields)
  have r: "pull_until_done (reasoningQueue (abort s)) =
           map (\<lambda>v. Settled (Resolve (IterValue v))) (queue (reasoningQueue s)) @
           [Settled (Resolve IterDone)]"
    using pull_until_done_terminal[of "complete (reasoningQueue s)"] assms(2)
    by (simp add: abort_queues complete_fields)
  have l: "settled (textQueue (abort s)) =
           settled (textQueue s) @ map (\<lambda>r. (r, Resolve IterDone)) (resolvers (textQueue s))"
     "settled (reasoningQueue (abort s)) =
           settled (reasoningQueue s) @
           map (\<lambda>r. (r, Resolve IterDone)) (resolvers (reasoningQueue s))"
    by (simp_all add: abort_queues complete_fields)
  have c: "closed_queue (textQueue (abort s))" "closed_queue (reasoningQueue (abort s))"
    by (simp_all add: abort_queues closed_after_complete)
  note a = acts_closed[OF c refl refl assms(3)]
  from t r l a show ?thesis by blast
qed

theorem abort_completes_both_queues_witness:
  "error (textQueue (emits [Event ''assistant.message_delta''
             (Some \<lparr>deltaContent = Some ''He'', message = None\<rparr>)] (new_stream None))) = None \<and>
   error (reasoningQueue (emits [Event ''assistant.message_delta''
             (Some \<lparr>deltaContent = Some ''He'', message = None\<rparr>)] (new_stream None))) = None \<and>
   list_all no_error_event
     [Emit (Event ''assistant.message_delta'' (Some \<lparr>deltaContent = Some ''llo'', message = None\<rparr>)),
      NextText, Emit (Event ''session.idle'' None), Cleanup] \<and>
   pull_until_done (textQueue (abort (emits [Event ''assistant.message_delta''
             (Some \<lparr>deltaContent = Some ''He'', message = None\<rparr>)] (new_stream None)))) =
     [Settled (Resolve (IterValue ''He'')), Settled (Resolve IterDone)] \<and>
   pull_until_done (reasoningQueue (abort (emits [Event ''assistant.message_delta''
             (Some \<lparr>deltaContent = Some ''He'', message = None\<rparr>)] (new_stream None)))) =
     [Settled (Resolve IterDone)] \<and>
   textQueue (acts (abort (emits [Event ''assistant.message_delta''
             (Some \<lparr>deltaContent = Some ''He'', message = None\<rparr>)] (new_stream None)))
     [Emit (Event ''assistant.message_delta'' (Some \<lparr>deltaContent = Some ''llo'', message = None\<rparr>)),
      NextText, Emit (Event ''session.idle'' None), Cleanup]) =
   textQueue (acts (abort (emits [Event ''assistant.message_delta''
             (Some \<lparr>deltaContent = Some ''He'', message = None\<rparr>)] (new_stream None)))
     [NextText])"
proof -
  let ?s = "emits [Event ''assistant.message_delta''
             (Some \<lparr>deltaContent = Some ''He'', message = None\<rparr>)] (new_stream None)"
  let ?as = "[Emit (Event ''assistant.message_delta''
                (Some \<lparr>deltaContent = Some ''llo'', message = None\<rparr>)),
              NextText, Emit (Event ''session.idle'' None), Cleanup]"
  have tq: "textQueue ?s = (new_AsyncEventQueue default_maxSize)\<lparr>queue := [''He'']\<rparr>"
    and rq: "reasoningQueue ?s = new_AsyncEventQueue default_maxSize"
    by (simp_all add: emit_def handler_def delta_of_def push_def new_stream_def
        new_AsyncEventQueue_def default_maxSize_def)
  have h1: "error (textQueue ?s) = None" and h2: "error (reasoningQueue ?s) = None"
    unfolding tq rq by (simp_all add: new_AsyncEventQueue_def)
  have h3: "list_all no_error_event ?as" by simp
  have q1: "queue (textQueue ?s) = [''He'']" and q2: "queue (reasoningQueue ?s) = []"
    unfolding tq rq by (simp_all add: new_AsyncEventQueue_def)
  have f: "filter is_pull ?as = [NextText]" by simp
  show ?thesis
    using h1 h2 h3 abort_completes_both_queues[OF h1 h2 h3]
    unfolding q1 q2 f by simp
qed

section \<open>Properties of the completion call\<close>

text \<open>
  Claim C10. Let the conversation be valid with a user message and let the session be
  created. If \<^verbatim>\<open>sendAndWait\<close> resolves, \<^verbatim>\<open>copilot_sdk_completion\<close> returns a string,
  which is empty when the response is nullish, when its data is nullish and when the
  data has no content. If \<^verbatim>\<open>sendAndWait\<close> throws, the call rejects with what was
  thrown. In both cases \<^verbatim>\<open>session.destroy\<close> has run once when the call ends, whether
  \<^verbatim>\<open>destroy\<close> itself fails or not.
\<close>

theorem completion_empty_content_and_destroy:
  assumes "ConversationSchema_parse conv = Inr vc" and "lastUserMessage vc = Some um"
  shows "outcome (copilot_sdk_completion conv None db sr) =
           (case sr of Inl t \<Rightarrow> Inl t | Inr resp \<Rightarrow> Inr (content_or_empty resp)) \<and>
         map_option destroyCalls (final_session (copilot_sdk_completion conv None db sr)) = Some 1 \<and>
         content_or_empty None = [] \<and>
         content_or_empty (Some (Response None)) = [] \<and>
         content_or_empty (Some (Response (Some (Payload None)))) = []"
  using assms
  by (simp add: copilot_sdk_completion_def session_destroy_def Let_def
      split: sum.splits option.splits)

theorem completion_empty_content_and_destroy_witness:
  "ConversationSchema_parse [\<lparr>role = ''user'', content = ''hi''\<rparr>] =
     Inr [\<lparr>role = ''user'', content = ''hi''\<rparr>] \<and>
   lastUserMessage [\<lparr>role = ''user'', content = ''hi''\<rparr>] = Some \<lparr>role = ''user'', content = ''hi''\<rparr> \<and>
   outcome (copilot_sdk_completion [\<lparr>role = ''user'', content = ''hi''\<rparr>] None
      (Some (ThrownOther ''gone'')) (Inr (Some (Response (Some (Payload None)))))) = Inr [] \<and>
   outcome (copilot_sdk_completion [\<lparr>role = ''user'', content = ''hi''\<rparr>] None
      (Some (ThrownOther ''gone'')) (Inl (ThrownOther ''timeout''))) = Inl (ThrownOther ''timeout'') \<and>
   map_option destroyCalls (final_session (copilot_sdk_completion
      [\<lparr>role = ''user'', content = ''hi''\<rparr>] None (Some (ThrownOther ''gone''))
      (Inl (ThrownOther ''timeout'')))) = Some 1"
proof -
  have p: "ConversationSchema_parse [\<lparr>role = ''user'', content = ''hi''\<rparr>] =
             Inr [\<lparr>role = ''user'', content = ''hi''\<rparr>]"
    by (simp add: ConversationSchema_parse_def)
  have l: "lastUserMessage [\<lparr>role = ''user'', content = ''hi''\<rparr>] =
             Some \<lparr>role = ''user'', content = ''hi''\<rparr>"
    by (simp add: lastUserMessage_def)
  show ?thesis
    using p l
      completion_empty_content_and_destroy[OF p l, of "Some (ThrownOther ''gone'')"
        "Inr (Some (Response (Some (Payload None))))"]
      completion_empty_content_and_destroy[OF p l, of "Some (ThrownOther ''gone'')"
        "Inl (ThrownOther ''timeout'')"]
    by simp
qed

section \<open>Properties of structured generation\<close>

text \<open>
  Claim C5 says that for every provider family a successful \<^verbatim>\<open>ai_sdk_structured\<close>
  returns the generated value that conforms to the schema. The code does so on the
  default branch (\<^verbatim>\<open>return response.object\<close>) but not on the \<^verbatim>\<open>openrouter\<close> branch
  (\<^verbatim>\<open>return response\<close>). With a schema that asks for the title \<^verbatim>\<open>Notes\<close> and a backend
  whose result object carries the conforming value \<^verbatim>\<open>{ title: "Notes" }\<close>, the call for
  \<^verbatim>\<open>openai\<close> returns that value, and the call for \<^verbatim>\<open>openrouter\<close> returns the result
  object around it, which does not conform.
\<close>

theorem structured_openrouter_returns_result_object:
  "ai_sdk_structured
     (\<lambda>r. Inr (JObject [(''object'', JObject [(''title'', JStr ''Notes'')]),
                          (''finishReason'', JStr ''stop'')]))
     ''m'' [\<lparr>role = ''user'', content = ''hi''\<rparr>] 0 Openai
     (\<lambda>v. get_prop v ''title'' = Inr (JStr ''Notes'')) =
     Inr (JObject [(''title'', JStr ''Notes'')]) \<and>
   (\<lambda>v. get_prop v ''title'' = Inr (JStr ''Notes'')) (JObject [(''title'', JStr ''Notes'')]) \<and>
   ai_sdk_structured
     (\<lambda>r. Inr (JObject [(''object'', JObject [(''title'', JStr ''Notes'')]),
                          (''finishReason'', JStr ''stop'')]))
     ''m'' [\<lparr>role = ''user'', content = ''hi''\<rparr>] 0 Openrouter
     (\<lambda>v. get_prop v ''title'' = Inr (JStr ''Notes'')) =
     Inr (JObject [(''object'', JObject [(''title'', JStr ''Notes'')]),
                   (''finishReason'', JStr ''stop'')]) \<and>
   \<not> (\<lambda>v. get_prop v ''title'' = Inr (JStr ''Notes''))
        (JObject [(''object'', JObject [(''title'', JStr ''Notes'')]),
                  (''finishReason'', JStr ''stop'')])"
  by (simp add: ai_sdk_structured_def ConversationSchema_parse_def)

end
